theory Spec2Isabelle
  imports Main "HOL-Library.Word"
begin

section \<open>The Win16/Win32 portability header \<open>port1632.h\<close>\<close>

text \<open>
  The header is a list of guarded macro definitions and one inline function.
  Its run-time content (the \<open>min\<close>/\<open>max\<close> macros, the two memory aliases and
  \<open>MMoveTo\<close>) is embedded as HOL functions; its compile-time content (which
  definitions the preprocessor installs) is embedded as the list of its
  directives together with the preprocessor's rules for them.
\<close>

subsection \<open>The numeric comparison macros (lines 46-52)\<close>

text \<open>
  \<^verbatim>\<open>#define max(a,b)  (((a) > (b)) ? (a) : (b))\<close>
  \<^verbatim>\<open>#define min(a,b)  (((a) < (b)) ? (a) : (b))\<close>

  A macro has no operand type of its own: it applies to every type that has
  the comparison. The operands are values of one ordered type (two C operands
  are compared after conversion to their common type, and comparing two C
  integers of one type compares their values). \<open>max\<close> and \<open>min\<close> are constants
  of HOL, hence the suffix.
\<close>

definition max_macro :: "'a::ord \<Rightarrow> 'a \<Rightarrow> 'a" where
  "max_macro a b = (if a > b then a else b)"

definition min_macro :: "'a::ord \<Rightarrow> 'a \<Rightarrow> 'a" where
  "min_macro a b = (if a < b then a else b)"

subsection \<open>The cursor-move wrapper \<open>MMoveTo\<close> (lines 54-58)\<close>

text \<open>
  \<^verbatim>\<open>__inline int MMoveTo(HDC hdc, int x, int y)\<close>
  \<^verbatim>\<open>{ POINT pt; return MoveToEx(hdc, x, y, &pt); }\<close>

  A C \<open>int\<close> is a 32-bit word (read as signed by \<open>sint\<close>), a handle is an
  opaque number, and a \<open>POINT\<close> is the platform's pair of coordinates. The
  result type \<open>BOOL\<close> of the primitive is \<open>int\<close>. The platform primitive
  \<open>MoveToEx\<close> is not part of the repository, so \<open>MMoveTo\<close> takes it as its first
  argument \<open>prim\<close>. A call \<open>prim hdc x y g\<close> in graphics state \<open>g\<close> stands for
  \<open>MoveToEx(hdc, x, y, &pt)\<close> with a pointer to fresh storage: it yields the
  result code, what the call stored through the pointer (\<open>None\<close> when it stored
  nothing, which leaves the local \<open>pt\<close> indeterminate), and the new graphics
  state. \<open>MMoveTo\<close> returns the result code; the local \<open>pt\<close> dies with the call.
\<close>

type_synonym c_int = "32 word"

type_synonym HDC = nat

record POINT =
  POINT_x :: c_int
  POINT_y :: c_int

type_synonym 'g MoveToEx_prim =
  "HDC \<Rightarrow> c_int \<Rightarrow> c_int \<Rightarrow> 'g \<Rightarrow> (c_int \<times> POINT option) \<times> 'g"

definition MMoveTo :: "'g MoveToEx_prim \<Rightarrow> HDC \<Rightarrow> c_int \<Rightarrow> c_int \<Rightarrow> 'g \<Rightarrow> c_int \<times> 'g" where
  "MMoveTo prim hdc x y g = (case prim hdc x y g of ((r, pt), g') \<Rightarrow> (r, g'))"

text \<open>
  Modelled from the spec: the cursor-position-update primitive \<open>MoveToEx\<close> of the
  platform, which the repository only calls. The spec gives its signature as
  (surface handle, x, y, out-parameter previous-point) to success/failure code,
  nonzero on success, and says that it writes the previous position into the
  out-parameter and moves the drawing cursor to (x, y). A drawing surface
  (device context) holds its current position and its other attributes; the
  graphics state maps each live handle to its surface. On a handle that names
  no surface the primitive fails: it returns 0, stores nothing and changes
  nothing.
\<close>

record 'a DC =
  position :: POINT
  attributes :: 'a

type_synonym 'a gdi = "HDC \<rightharpoonup> 'a DC"

definition MoveToEx :: "('a gdi) MoveToEx_prim" where
  "MoveToEx hdc x y g =
     (case g hdc of
        None \<Rightarrow> ((0, None), g)
      | Some dc \<Rightarrow>
          ((1, Some (position dc)),
           g(hdc \<mapsto> dc\<lparr>position := \<lparr>POINT_x = x, POINT_y = y\<rparr>\<rparr>)))"

subsection \<open>The memory aliases \<open>hmemcpy\<close> and \<open>hmemset\<close> (lines 29-35)\<close>

text \<open>
  \<^verbatim>\<open>#define hmemcpy memcpy\<close>
  \<^verbatim>\<open>#define hmemset memset\<close>

  Each alias is the C run-time primitive under another name, so a call of the
  alias is a call of the primitive with the same arguments. The primitives are
  not part of the repository: the aliases take them as the argument \<open>prim\<close>.
\<close>

definition hmemcpy :: "('d \<Rightarrow> 's \<Rightarrow> 'n \<Rightarrow> 'm \<Rightarrow> 'r) \<Rightarrow> 'd \<Rightarrow> 's \<Rightarrow> 'n \<Rightarrow> 'm \<Rightarrow> 'r" where
  "hmemcpy prim dest src n mem = prim dest src n mem"


text \<open>
  Modelled from the spec: the standard memory-copy and memory-fill primitives
  \<open>memcpy\<close> and \<open>memset\<close> of the C run-time, which the repository only names. The
  spec gives them as (dest, src, length) to dest and (dest, fill-byte, length)
  to dest, the fill leaving \<open>length\<close> bytes each equal to the fill byte, and
  speaks of valid and non-overlapping buffers. Memory maps each allocated
  address to its byte; a buffer of \<open>n\<close> bytes at \<open>p\<close> is valid when all its
  addresses are allocated. Outside these conditions C leaves the call
  undefined, which is the result \<open>None\<close>. (The C primitive receives the fill
  value as an \<open>int\<close> and stores its conversion to a byte; \<open>c\<close> is that byte.)
\<close>

type_synonym addr = nat

type_synonym byte = "8 word"

type_synonym memory = "addr \<rightharpoonup> byte"

definition buffer :: "addr \<Rightarrow> nat \<Rightarrow> addr set" where
  "buffer p n = {p ..< p + n}"

definition valid :: "memory \<Rightarrow> addr \<Rightarrow> nat \<Rightarrow> bool" where
  "valid mem p n = (buffer p n \<subseteq> dom mem)"

definition memcpy :: "addr \<Rightarrow> addr \<Rightarrow> nat \<Rightarrow> memory \<Rightarrow> (addr \<times> memory) option" where
  "memcpy dest src n mem =
     (if valid mem dest n \<and> valid mem src n \<and> buffer dest n \<inter> buffer src n = {}
      then Some (dest, \<lambda>a. if a \<in> buffer dest n then mem (src + (a - dest)) else mem a)
      else None)"


subsection \<open>Tokens, macros and macro replacement\<close>

text \<open>
  The preprocessor works on tokens. A macro is object-like (a replacement
  list) or function-like (parameter names and a replacement list); a macro
  table lists the definitions in force, the most recent first.
\<close>

datatype token = Ident string | Punct string | StrLit string

datatype macro = ObjectLike "token list" | FunctionLike "string list" "token list"

type_synonym macro_table = "(string \<times> macro) list"

text \<open>
  Invoking a function-like macro replaces every parameter in its replacement
  list by the matching argument, all at once (an argument is the token
  sequence it stands for after its own replacement); a wrong number of
  arguments is an error (\<open>None\<close>), and an object-like macro cannot be invoked.
\<close>

fun subst :: "(string \<times> token list) list \<Rightarrow> token list \<Rightarrow> token list" where
  "subst args [] = []"
| "subst args (Ident n # ts) =
     (case map_of args n of
        Some a \<Rightarrow> a @ subst args ts
      | None \<Rightarrow> Ident n # subst args ts)"
| "subst args (t # ts) = t # subst args ts"

definition invoke :: "macro \<Rightarrow> token list list \<Rightarrow> token list option" where
  "invoke m args =
     (case m of
        FunctionLike ps body \<Rightarrow>
          if length args = length ps then Some (subst (zip ps args) body) else None
      | ObjectLike body \<Rightarrow> None)"

text \<open>
  Replacement of the object-like macros in a token sequence. A name is replaced
  by its replacement list, which is scanned again with that name hidden (a
  macro is never replaced inside its own replacement). The name of a
  function-like macro stays where it is: its invocations are replaced by
  \<open>invoke\<close>. Every nested scan hides one more defined name, which is why the
  scan ends.
\<close>

function expand :: "macro_table \<Rightarrow> string list \<Rightarrow> token list \<Rightarrow> token list" where
  "expand tab hide [] = []"
| "expand tab hide (Punct p # ts) = Punct p # expand tab hide ts"
| "expand tab hide (StrLit l # ts) = StrLit l # expand tab hide ts"
| "expand tab hide (Ident n # ts) =
     (if n \<in> set hide then Ident n # expand tab hide ts
      else case map_of tab n of
             Some (ObjectLike body) \<Rightarrow> expand tab (n # hide) body @ expand tab hide ts
           | Some (FunctionLike ps body) \<Rightarrow> Ident n # expand tab hide ts
           | None \<Rightarrow> Ident n # expand tab hide ts)"
  by pat_completeness auto
termination
proof (relation "inv_image (less_than <*lex*> less_than)
         (\<lambda>(tab, hide, ts). (card (fst ` set tab - set hide), length ts))")
  fix tab :: macro_table and hide n ts m body
  assume a: "n \<notin> set hide" "map_of tab n = Some m" "m = ObjectLike body"
  have "n \<in> fst ` set tab"
    using a(2) by (force dest: map_of_SomeD)
  then have "card (fst ` set tab - set (n # hide)) < card (fst ` set tab - set hide)"
    using a(1) by (intro psubset_card_mono) auto
  then show "((tab, n # hide, body), tab, hide, Ident n # ts)
       \<in> inv_image (less_than <*lex*> less_than)
         (\<lambda>(tab, hide, ts). (card (fst ` set tab - set hide), length ts))"
    by simp
qed auto

text \<open>The nesting of braces in a token sequence: opening minus closing.\<close>

fun brace_depth :: "token list \<Rightarrow> int" where
  "brace_depth [] = 0"
| "brace_depth (t # ts) =
     (if t = Punct ''{'' then 1 else if t = Punct ''}'' then - 1 else 0) + brace_depth ts"

subsection \<open>The macro definitions of the header\<close>

text \<open>
  Lines 22-24 (one logical line after the line splices):
  \<^verbatim>\<open>#define MMain(hInstance, hPrevInstance, lpCmdLine, nCmdShow)\<close>
  \<^verbatim>\<open>  int APIENTRY WinMain(HINSTANCE hInstance, HINSTANCE hPrevInstance,\<close>
  \<^verbatim>\<open>                       LPSTR lpCmdLine, int nCmdShow) {\<close>
\<close>

definition define_MMain :: macro where
  "define_MMain =
     FunctionLike [''hInstance'', ''hPrevInstance'', ''lpCmdLine'', ''nCmdShow'']
       [Ident ''int'', Ident ''APIENTRY'', Ident ''WinMain'', Punct ''('',
        Ident ''HINSTANCE'', Ident ''hInstance'', Punct '','',
        Ident ''HINSTANCE'', Ident ''hPrevInstance'', Punct '','',
        Ident ''LPSTR'', Ident ''lpCmdLine'', Punct '','',
        Ident ''int'', Ident ''nCmdShow'', Punct '')'',
        Punct ''{'']"

text \<open>Lines 30, 34, 39 and 43: the four one-token aliases.\<close>

definition define_hmemcpy :: macro where
  "define_hmemcpy = ObjectLike [Ident ''memcpy'']"

definition define_hmemset :: macro where
  "define_hmemset = ObjectLike [Ident ''memset'']"

definition define_EXPENTRY :: macro where
  "define_EXPENTRY = ObjectLike [Ident ''WINAPI'']"

definition define_WINAPI16 :: macro where
  "define_WINAPI16 = ObjectLike [Ident ''CALLBACK'']"

text \<open>Lines 47 and 51: \<open>max\<close> and \<open>min\<close> as the preprocessor holds them.\<close>

definition define_max :: macro where
  "define_max =
     FunctionLike [''a'', ''b'']
       [Punct ''('', Punct ''('', Punct ''('', Ident ''a'', Punct '')'', Punct ''>'',
        Punct ''('', Ident ''b'', Punct '')'', Punct '')'', Punct ''?'',
        Punct ''('', Ident ''a'', Punct '')'', Punct '':'',
        Punct ''('', Ident ''b'', Punct '')'', Punct '')'']"

definition define_min :: macro where
  "define_min =
     FunctionLike [''a'', ''b'']
       [Punct ''('', Punct ''('', Punct ''('', Ident ''a'', Punct '')'', Punct ''<'',
        Punct ''('', Ident ''b'', Punct '')'', Punct '')'', Punct ''?'',
        Punct ''('', Ident ''a'', Punct '')'', Punct '':'',
        Punct ''('', Ident ''b'', Punct '')'', Punct '')'']"

subsection \<open>Directives and their processing\<close>

text \<open>
  The directives the header uses. \<open>Source\<close> is a run of ordinary program text.
  A conditional group holds the directives between its \<^verbatim>\<open>#ifndef\<close> or
  \<^verbatim>\<open>#ifdef\<close> and the matching \<^verbatim>\<open>#endif\<close>.
\<close>

datatype directive =
    Pragma string
  | Ifndef string "directive list"
  | Ifdef string "directive list"
  | Define string macro
  | Include string
  | Source "token list"

text \<open>
  The state of a translation unit while it is preprocessed: the macro table,
  the files marked by \<^verbatim>\<open>#pragma once\<close>, and the program text the header
  has passed on to the compiler so far (group by group, before macro
  replacement).
\<close>

record pp_state =
  macros :: macro_table
  once :: "string list"
  passed :: "token list list"

text \<open>
  What the header takes from its surroundings: whether the compiler honours
  \<^verbatim>\<open>#pragma once\<close> (a compiler ignores a pragma it does not know), and what
  including a system header does to the macro table, which may fail.
  \<open>windows.h\<close> and \<open>string.h\<close> are not part of the repository.
\<close>

datatype pp_error = Redefined string | HeaderFailed string

record platform =
  honours_once :: bool
  sys_header :: "string \<Rightarrow> macro_table \<Rightarrow> pp_error + macro_table"

definition is_defined :: "pp_state \<Rightarrow> string \<Rightarrow> bool" where
  "is_defined s n = (map_of (macros s) n \<noteq> None)"

text \<open>
  Processing one directive of the file \<open>file\<close>, and a list of them in order.
  \<^verbatim>\<open>#define\<close> of an undefined name installs the definition; of a name
  already defined the same way it changes nothing; of a name defined otherwise
  it is the redefinition error. A conditional group is processed or skipped as
  a whole.
\<close>

fun run :: "platform \<Rightarrow> string \<Rightarrow> directive \<Rightarrow> pp_state \<Rightarrow> pp_error + pp_state"
  and run_all :: "platform \<Rightarrow> string \<Rightarrow> directive list \<Rightarrow> pp_state \<Rightarrow> pp_error + pp_state"
where
  "run pf file (Pragma p) s =
     Inr (if p = ''once'' \<and> honours_once pf then s\<lparr>once := file # once s\<rparr> else s)"
| "run pf file (Ifndef n ds) s = (if is_defined s n then Inr s else run_all pf file ds s)"
| "run pf file (Ifdef n ds) s = (if is_defined s n then run_all pf file ds s else Inr s)"
| "run pf file (Define n m) s =
     (case map_of (macros s) n of
        None \<Rightarrow> Inr (s\<lparr>macros := (n, m) # macros s\<rparr>)
      | Some m' \<Rightarrow> if m' = m then Inr s else Inl (Redefined n))"
| "run pf file (Include h) s =
     (case sys_header pf h (macros s) of
        Inl e \<Rightarrow> Inl e
      | Inr tab \<Rightarrow> Inr (s\<lparr>macros := tab\<rparr>))"
| "run pf file (Source ts) s = Inr (s\<lparr>passed := passed s @ [ts]\<rparr>)"
| "run_all pf file [] s = Inr s"
| "run_all pf file (d # ds) s =
     (case run pf file d s of
        Inl e \<Rightarrow> Inl e
      | Inr s' \<Rightarrow> run_all pf file ds s')"

text \<open>
  \<^verbatim>\<open>#include\<close> of a file of the translation unit: a file marked by
  \<^verbatim>\<open>#pragma once\<close> is not read again.
\<close>

definition include_file :: "platform \<Rightarrow> string \<Rightarrow> directive list \<Rightarrow> pp_state \<Rightarrow> pp_error + pp_state" where
  "include_file pf file ds s = (if file \<in> set (once s) then Inr s else run_all pf file ds s)"

subsection \<open>The header\<close>

text \<open>Lines 18-52: the seven guarded definitions.\<close>

definition port1632_bindings :: "directive list" where
  "port1632_bindings =
     [Ifndef ''MMain'' [Define ''MMain'' define_MMain],
      Ifndef ''hmemcpy'' [Define ''hmemcpy'' define_hmemcpy],
      Ifndef ''hmemset'' [Define ''hmemset'' define_hmemset],
      Ifndef ''EXPENTRY'' [Define ''EXPENTRY'' define_EXPENTRY],
      Ifndef ''WINAPI16'' [Define ''WINAPI16'' define_WINAPI16],
      Ifndef ''max'' [Define ''max'' define_max],
      Ifndef ''min'' [Define ''min'' define_min]]"

text \<open>Lines 54-58: the text of \<open>MMoveTo\<close>.\<close>

definition MMoveTo_text :: "token list" where
  "MMoveTo_text =
     [Ident ''__inline'', Ident ''int'', Ident ''MMoveTo'', Punct ''('',
      Ident ''HDC'', Ident ''hdc'', Punct '','', Ident ''int'', Ident ''x'', Punct '','',
      Ident ''int'', Ident ''y'', Punct '')'',
      Punct ''{'',
      Ident ''POINT'', Ident ''pt'', Punct '';'',
      Ident ''return'', Ident ''MoveToEx'', Punct ''('', Ident ''hdc'', Punct '','',
      Ident ''x'', Punct '','', Ident ''y'', Punct '','', Punct ''&'', Ident ''pt'',
      Punct '')'', Punct '';'',
      Punct ''}'']"

text \<open>
  Lines 9-16, the opening of the guarded body: the guard macro, the two system
  headers, and the opening of the \<open>extern "C"\<close> block under C++.
\<close>

definition port1632_prologue :: "directive list" where
  "port1632_prologue =
     [Define ''PORT1632_STUB_H'' (ObjectLike []),
      Include ''windows.h'',
      Include ''string.h'',
      Ifdef ''__cplusplus'' [Source [Ident ''extern'', StrLit ''C'', Punct ''{'']]]"

text \<open>Lines 54-62, its end: \<open>MMoveTo\<close> and the closing of the \<open>extern "C"\<close> block.\<close>

definition port1632_epilogue :: "directive list" where
  "port1632_epilogue =
     [Source MMoveTo_text,
      Ifdef ''__cplusplus'' [Source [Punct ''}'']]]"

text \<open>
  The whole file, lines 1-64: \<^verbatim>\<open>#pragma once\<close>, then everything else
  inside the inclusion guard \<^verbatim>\<open>#ifndef PORT1632_STUB_H\<close>.
\<close>

definition port1632_h :: "directive list" where
  "port1632_h =
     [Pragma ''once'',
      Ifndef ''PORT1632_STUB_H'' (port1632_prologue @ port1632_bindings @ port1632_epilogue)]"

definition include_port1632 :: "platform \<Rightarrow> pp_state \<Rightarrow> pp_error + pp_state" where
  "include_port1632 pf s = include_file pf ''port1632.h'' port1632_h s"

text \<open>The seven names the header binds, each with its definition.\<close>

definition shim_definitions :: "(string \<times> macro) list" where
  "shim_definitions =
     [(''MMain'', define_MMain), (''hmemcpy'', define_hmemcpy), (''hmemset'', define_hmemset),
      (''EXPENTRY'', define_EXPENTRY), (''WINAPI16'', define_WINAPI16),
      (''max'', define_max), (''min'', define_min)]"

subsection \<open>Conditions on the platform\<close>

text \<open>
  Two conditions a platform may meet: its system headers leave an existing
  definition of the name \<open>n\<close> as it is, and its system headers can be read
  without error.
\<close>

definition keeps :: "platform \<Rightarrow> string \<Rightarrow> bool" where
  "keeps pf n =
     (\<forall>h tab tab' m. sys_header pf h tab = Inr tab' \<and> map_of tab n = Some m
        \<longrightarrow> map_of tab' n = Some m)"

definition succeeds :: "platform \<Rightarrow> bool" where
  "succeeds pf = (\<forall>h tab. \<exists>tab'. sys_header pf h tab = Inr tab')"

text \<open>A third: its system headers do not define the name \<open>n\<close> where it is free.\<close>

definition leaves_free :: "platform \<Rightarrow> string \<Rightarrow> bool" where
  "leaves_free pf n =
     (\<forall>h tab tab'. sys_header pf h tab = Inr tab' \<and> map_of tab n = None
        \<longrightarrow> map_of tab' n = None)"

subsection \<open>Example inputs\<close>

text \<open>
  A numeric type in which two different values compare equal, as the zeros
  \<open>+0.0\<close> and \<open>-0.0\<close> of C's floating point do: numbers held as sign and
  magnitude and compared by their value.
\<close>

datatype sign_magnitude = Plus nat | Minus nat

fun sm_value :: "sign_magnitude \<Rightarrow> int" where
  "sm_value (Plus n) = int n"
| "sm_value (Minus n) = - int n"

instantiation sign_magnitude :: preorder
begin

definition less_eq_sign_magnitude :: "sign_magnitude \<Rightarrow> sign_magnitude \<Rightarrow> bool" where
  "less_eq_sign_magnitude a b = (sm_value a \<le> sm_value b)"

definition less_sign_magnitude :: "sign_magnitude \<Rightarrow> sign_magnitude \<Rightarrow> bool" where
  "less_sign_magnitude a b = (sm_value a < sm_value b)"

instance
  by standard (auto simp: less_eq_sign_magnitude_def less_sign_magnitude_def)

end

text \<open>
  A graphics state with two surfaces, and a memory with the two bytes 17 and
  34 at address 0 and three more bytes at address 8.
\<close>

definition window_dc :: "string DC" where
  "window_dc = \<lparr>position = \<lparr>POINT_x = 3, POINT_y = 4\<rparr>, attributes = ''black pen''\<rparr>"

definition two_surfaces :: "string gdi" where
  "two_surfaces = [4 \<mapsto> window_dc, 6 \<mapsto> window_dc]"

definition ram :: memory where
  "ram = [0 \<mapsto> 17, 1 \<mapsto> 34, 8 \<mapsto> 0, 9 \<mapsto> 0, 10 \<mapsto> 51]"

text \<open>
  A platform in the manner of Windows: its compiler does not know
  \<^verbatim>\<open>#pragma once\<close>, and its \<open>windows.h\<close> gives both calling conventions
  the keyword \<open>__stdcall\<close> and defines \<open>max\<close>, each only where the name is
  still free (an entry at the end of the table is found only if no earlier one
  has the name).
\<close>

definition windows_like :: "string \<Rightarrow> macro_table \<Rightarrow> pp_error + macro_table" where
  "windows_like h tab =
     (if h = ''windows.h''
      then Inr (tab @ [(''WINAPI'', ObjectLike [Ident ''__stdcall'']),
                       (''CALLBACK'', ObjectLike [Ident ''__stdcall'']),
                       (''APIENTRY'', ObjectLike [Ident ''WINAPI'']),
                       (''max'', define_max)])
      else Inr tab)"

definition example_platform :: platform where
  "example_platform = \<lparr>honours_once = False, sys_header = windows_like\<rparr>"

text \<open>
  Translation units: an empty one; one whose own \<open>max\<close> is in force before the
  header is included; the empty one after the opening of the header on the
  example platform, after its guarded definitions, and after the whole header.
\<close>

definition empty_state :: pp_state where
  "empty_state = \<lparr>macros = [], once = [], passed = []\<rparr>"

definition own_max :: macro where
  "own_max =
     FunctionLike [''x'', ''y'']
       [Ident ''fmax'', Punct ''('', Ident ''x'', Punct '','', Ident ''y'', Punct '')'']"

definition with_own_max :: pp_state where
  "with_own_max = \<lparr>macros = [(''max'', own_max)], once = [], passed = []\<rparr>"

definition after_prologue :: pp_state where
  "after_prologue =
     \<lparr>macros =
        [(''PORT1632_STUB_H'', ObjectLike []),
         (''WINAPI'', ObjectLike [Ident ''__stdcall'']),
         (''CALLBACK'', ObjectLike [Ident ''__stdcall'']),
         (''APIENTRY'', ObjectLike [Ident ''WINAPI'']),
         (''max'', define_max)],
      once = [],
      passed = []\<rparr>"

definition after_bindings :: pp_state where
  "after_bindings =
     \<lparr>macros =
        [(''min'', define_min), (''WINAPI16'', define_WINAPI16), (''EXPENTRY'', define_EXPENTRY),
         (''hmemset'', define_hmemset), (''hmemcpy'', define_hmemcpy), (''MMain'', define_MMain),
         (''PORT1632_STUB_H'', ObjectLike []),
         (''WINAPI'', ObjectLike [Ident ''__stdcall'']),
         (''CALLBACK'', ObjectLike [Ident ''__stdcall'']),
         (''APIENTRY'', ObjectLike [Ident ''WINAPI'']),
         (''max'', define_max)],
      once = [],
      passed = []\<rparr>"

definition after_first :: pp_state where
  "after_first = after_bindings\<lparr>passed := [MMoveTo_text]\<rparr>"

section \<open>Properties\<close>

subsection \<open>The comparison macros\<close>

text \<open>Where the strict comparison is false, the conditional yields its else branch.\<close>

lemma max_macro_else: "\<not> a > b \<Longrightarrow> max_macro a b = b"
  by (simp add: max_macro_def)

lemma min_macro_else: "\<not> a < b \<Longrightarrow> min_macro a b = b"
  by (simp add: min_macro_def)

text \<open>
  Claim C3. For every two values \<open>a\<close> and \<open>b\<close> of a linearly ordered numeric type,
  \<open>max(a,b)\<close> is the larger and \<open>min(a,b)\<close> the smaller of the two: each result is
  one of the operands, \<open>max\<close> bounds both from above and \<open>min\<close> from below (so
  they are the \<open>max\<close> and \<open>min\<close> of the order); on equal operands each returns
  the shared value.
\<close>

theorem min_max_macro_extremum:
  fixes a b :: "'a::linorder"
  shows "max_macro a b \<in> {a, b} \<and> a \<le> max_macro a b \<and> b \<le> max_macro a b
       \<and> min_macro a b \<in> {a, b} \<and> min_macro a b \<le> a \<and> min_macro a b \<le> b
       \<and> max_macro a b = max a b \<and> min_macro a b = min a b
       \<and> max_macro a a = a \<and> min_macro a a = a"
  by (auto simp: max_macro_def min_macro_def)

text \<open>The macros on the C integers \<open>-3\<close> and \<open>5\<close>, and on two equal operands.\<close>

theorem min_max_macro_extremum_witness:
  "max_macro (- 3 :: int) 5 = 5 \<and> min_macro (- 3 :: int) 5 = - 3
   \<and> max_macro (5 :: int) 5 = 5 \<and> min_macro (5 :: int) 5 = 5"
  using min_max_macro_extremum [of "- 3 :: int" 5] min_max_macro_extremum [of "5 :: int" 5]
  by simp

text \<open>
  Claim C9. When the two arguments are equal in the sense of the comparison
  (neither is smaller than the other, as with two identical values), the
  strict comparison of either macro is false, so the conditional takes its
  else branch, which is the second argument \<open>b\<close>: both \<open>min(a,b)\<close> and
  \<open>max(a,b)\<close> evaluate to \<open>b\<close>, also where \<open>a\<close> and \<open>b\<close> can be told apart.
\<close>

theorem min_max_macro_equal_second:
  fixes a b :: "'a::preorder"
  assumes "a \<le> b" "b \<le> a"
  shows "\<not> a > b \<and> \<not> a < b \<and> max_macro a b = b \<and> min_macro a b = b"
proof -
  from assms have gt: "\<not> a > b" and lt: "\<not> a < b"
    by (simp_all add: less_le_not_le)
  from gt lt max_macro_else [OF gt] min_macro_else [OF lt] show ?thesis
    by simp
qed

text \<open>
  The two zeros compare equal and differ, and each macro returns whichever of
  them is its second argument; on the integer 7 twice, each returns 7.
\<close>

theorem min_max_macro_equal_second_witness:
  "Plus 0 \<le> Minus 0 \<and> Minus 0 \<le> Plus 0 \<and> Plus 0 \<noteq> Minus 0
   \<and> max_macro (Plus 0) (Minus 0) = Minus 0 \<and> min_macro (Plus 0) (Minus 0) = Minus 0
   \<and> max_macro (Minus 0) (Plus 0) = Plus 0 \<and> min_macro (Minus 0) (Plus 0) = Plus 0
   \<and> max_macro (7::int) 7 = 7 \<and> min_macro (7::int) 7 = 7"
proof -
  have le: "Plus 0 \<le> Minus 0" "Minus 0 \<le> Plus 0"
    by (simp_all add: less_eq_sign_magnitude_def)
  have ne: "Plus 0 \<noteq> Minus 0"
    by simp
  from le ne min_max_macro_equal_second [OF le] min_max_macro_equal_second [OF le(2) le(1)]
    min_max_macro_equal_second [of "7::int" 7]
  show ?thesis by simp
qed

subsection \<open>The cursor-move wrapper\<close>

text \<open>
  Claim C1. For every handle and coordinates, \<open>MMoveTo\<close> calls the primitive once,
  with the handle and the coordinates it was given, and returns the primitive's
  result code as it is, whatever the primitive is; the graphics state after
  the call is the one the primitive left. With the primitive as the spec
  describes it and a handle \<open>hdc\<close> of a drawing surface, the result code is the
  primitive's nonzero success code and the surface's cursor is at \<open>(x, y)\<close>.
\<close>

theorem MMoveTo_forwards_MoveToEx:
  fixes prim :: "'g MoveToEx_prim" and g :: "'a gdi"
  assumes "g hdc = Some dc"
  shows "MMoveTo prim hdc x y s = (fst (fst (prim hdc x y s)), snd (prim hdc x y s))
       \<and> fst (MMoveTo MoveToEx hdc x y g) = fst (fst (MoveToEx hdc x y g))
       \<and> fst (MMoveTo MoveToEx hdc x y g) \<noteq> 0
       \<and> map_option position (snd (MMoveTo MoveToEx hdc x y g) hdc)
           = Some \<lparr>POINT_x = x, POINT_y = y\<rparr>"
  using assms by (simp add: MMoveTo_def MoveToEx_def split: prod.splits)

text \<open>Moving the cursor of surface 4 from \<open>(3, 4)\<close> to \<open>(10, -5)\<close>.\<close>

theorem MMoveTo_forwards_MoveToEx_witness:
  "two_surfaces 4 = Some window_dc
   \<and> MMoveTo MoveToEx 4 10 (- 5) two_surfaces
       = (fst (fst (MoveToEx 4 10 (- 5) two_surfaces)), snd (MoveToEx 4 10 (- 5) two_surfaces))
   \<and> fst (MMoveTo MoveToEx 4 10 (- 5) two_surfaces) = 1
   \<and> map_option position (snd (MMoveTo MoveToEx 4 10 (- 5) two_surfaces) 4)
       = Some \<lparr>POINT_x = 10, POINT_y = - 5\<rparr>"
proof -
  have g4: "two_surfaces 4 = Some window_dc"
    by (simp add: two_surfaces_def)
  note at4 = MMoveTo_forwards_MoveToEx [where g = two_surfaces and hdc = 4 and dc = window_dc
      and prim = MoveToEx and s = two_surfaces and x = 10 and y = "- 5", OF g4]
  have one: "fst (fst (MoveToEx 4 10 (- 5) two_surfaces)) = 1"
    by (simp add: MoveToEx_def g4)
  from at4 have "fst (MMoveTo MoveToEx 4 10 (- 5) two_surfaces)
      = fst (fst (MoveToEx 4 10 (- 5) two_surfaces))"
    by (elim conjE)
  with one have "fst (MMoveTo MoveToEx 4 10 (- 5) two_surfaces) = 1"
    by (simp only:)
  with g4 at4 show ?thesis by blast
qed

text \<open>
  Claim C10. \<open>MMoveTo\<close> adds no effect of its own to the primitive's: the state
  after it is the state after the primitive, and what the primitive stored
  into the local point is dropped (a primitive that stores anything else there
  gives the same result and state). With the primitive as the spec describes
  it, the call changes nothing but the current position of the surface \<open>hdc\<close>:
  the same handles are live, every other surface is as before, the other
  attributes of the surface are as before, its position is \<open>(x, y)\<close>, and on a
  handle of no surface nothing changes at all.
\<close>

theorem MMoveTo_frame:
  fixes prim :: "'g MoveToEx_prim" and g :: "'a gdi"
  shows "snd (MMoveTo prim hdc x y s) = snd (prim hdc x y s)
       \<and> MMoveTo (\<lambda>h u v t. case prim h u v t of ((r, pt), t') \<Rightarrow> ((r, w), t')) hdc x y s
           = MMoveTo prim hdc x y s
       \<and> dom (snd (MMoveTo MoveToEx hdc x y g)) = dom g
       \<and> (\<forall>h. h \<noteq> hdc \<longrightarrow> snd (MMoveTo MoveToEx hdc x y g) h = g h)
       \<and> map_option attributes (snd (MMoveTo MoveToEx hdc x y g) hdc)
           = map_option attributes (g hdc)
       \<and> (\<forall>dc. g hdc = Some dc \<longrightarrow>
            snd (MMoveTo MoveToEx hdc x y g) hdc
              = Some (dc\<lparr>position := \<lparr>POINT_x = x, POINT_y = y\<rparr>\<rparr>))
       \<and> (g hdc = None \<longrightarrow> snd (MMoveTo MoveToEx hdc x y g) = g)"
  by (auto simp: MMoveTo_def MoveToEx_def split: prod.splits option.splits)

text \<open>
  Moving the cursor of surface 4 leaves surface 6 and the pen of surface 4 as
  they were; on the dead handle 5 the state stays as it is.
\<close>

theorem MMoveTo_frame_witness:
  "snd (MMoveTo MoveToEx 4 10 (- 5) two_surfaces) 6 = Some window_dc
   \<and> map_option attributes (snd (MMoveTo MoveToEx 4 10 (- 5) two_surfaces) 4) = Some ''black pen''
   \<and> snd (MMoveTo MoveToEx 4 10 (- 5) two_surfaces) 4
       = Some \<lparr>position = \<lparr>POINT_x = 10, POINT_y = - 5\<rparr>, attributes = ''black pen''\<rparr>
   \<and> snd (MMoveTo MoveToEx 5 10 (- 5) two_surfaces) = two_surfaces"
proof -
  note at4 = MMoveTo_frame [where g = two_surfaces and hdc = 4 and x = 10 and y = "- 5"
      and prim = MoveToEx and s = two_surfaces and w = None]
  note at5 = MMoveTo_frame [where g = two_surfaces and hdc = 5 and x = 10 and y = "- 5"
      and prim = MoveToEx and s = two_surfaces and w = None]
  have g4: "two_surfaces 4 = Some window_dc" and g5: "two_surfaces 5 = None"
    and g6: "two_surfaces 6 = Some window_dc"
    by (simp_all add: two_surfaces_def)
  from at4 have "\<forall>h. h \<noteq> 4 \<longrightarrow> snd (MMoveTo MoveToEx 4 10 (- 5) two_surfaces) h = two_surfaces h"
    by (elim conjE)
  then have a: "snd (MMoveTo MoveToEx 4 10 (- 5) two_surfaces) 6 = Some window_dc"
    using g6 by simp
  from at4 have "map_option attributes (snd (MMoveTo MoveToEx 4 10 (- 5) two_surfaces) 4)
      = map_option attributes (two_surfaces 4)"
    by (elim conjE)
  then have b: "map_option attributes (snd (MMoveTo MoveToEx 4 10 (- 5) two_surfaces) 4)
      = Some ''black pen''"
    by (simp add: g4 window_dc_def)
  from at4 have "\<forall>dc. two_surfaces 4 = Some dc \<longrightarrow>
      snd (MMoveTo MoveToEx 4 10 (- 5) two_surfaces) 4
        = Some (dc\<lparr>position := \<lparr>POINT_x = 10, POINT_y = - 5\<rparr>\<rparr>)"
    by (elim conjE)
  with g4 have c: "snd (MMoveTo MoveToEx 4 10 (- 5) two_surfaces) 4
       = Some \<lparr>position = \<lparr>POINT_x = 10, POINT_y = - 5\<rparr>, attributes = ''black pen''\<rparr>"
    by (simp add: window_dc_def)
  from at5 have "two_surfaces 5 = None \<longrightarrow> snd (MMoveTo MoveToEx 5 10 (- 5) two_surfaces) = two_surfaces"
    by (elim conjE)
  with g5 have d: "snd (MMoveTo MoveToEx 5 10 (- 5) two_surfaces) = two_surfaces"
    by simp
  from a b c d show ?thesis by simp
qed

subsection \<open>Processing directives\<close>

text \<open>A list of directives is processed part by part.\<close>

lemma run_all_append:
  "run_all pf f (xs @ ys) s =
     (case run_all pf f xs s of Inl e \<Rightarrow> Inl e | Inr s' \<Rightarrow> run_all pf f ys s')"
  by (induction xs arbitrary: s) (auto split: sum.splits)

text \<open>
  A property of the state that each single change of the state keeps is kept
  by processing any directives: the four changes are marking the file, adding
  the definition of a free name, reading a system header and passing text on.
\<close>

lemma run_invariant:
  assumes inv_once: "\<And>s f. Inv s \<Longrightarrow> Inv (s\<lparr>once := f # once s\<rparr>)"
    and inv_define: "\<And>s k v. Inv s \<Longrightarrow> map_of (macros s) k = None
                       \<Longrightarrow> Inv (s\<lparr>macros := (k, v) # macros s\<rparr>)"
    and inv_include: "\<And>s h tab. Inv s \<Longrightarrow> sys_header pf h (macros s) = Inr tab
                       \<Longrightarrow> Inv (s\<lparr>macros := tab\<rparr>)"
    and inv_source: "\<And>s ts. Inv s \<Longrightarrow> Inv (s\<lparr>passed := passed s @ [ts]\<rparr>)"
  shows "run pf f d s = Inr s' \<Longrightarrow> Inv s \<Longrightarrow> Inv s'"
    and "run_all pf f ds s = Inr s' \<Longrightarrow> Inv s \<Longrightarrow> Inv s'"
  using inv_include
proof (induction pf f d s and pf f ds s arbitrary: s' and s' rule: run_run_all.induct)
  case (1 pf fl p s)
  show ?case
  proof (cases "p = ''once'' \<and> honours_once pf")
    case True
    with 1(1) have "s' = s\<lparr>once := fl # once s\<rparr>" by auto
    with inv_once [OF 1(2)] show ?thesis by simp
  next
    case False
    with 1(1) have "s' = s" by auto
    with 1(2) show ?thesis by simp
  qed
next
  case (2 pf fl k ds s)
  show ?case
  proof (cases "is_defined s k")
    case True
    with 2(2) have "s' = s" by simp
    with 2(3) show ?thesis by simp
  next
    case False
    with 2(2) have "run_all pf fl ds s = Inr s'" by simp
    from 2(1) [OF False this 2(3) 2(4)] show ?thesis .
  qed
next
  case (3 pf fl k ds s)
  show ?case
  proof (cases "is_defined s k")
    case True
    with 3(2) have "run_all pf fl ds s = Inr s'" by simp
    from 3(1) [OF True this 3(3) 3(4)] show ?thesis .
  next
    case False
    with 3(2) have "s' = s" by simp
    with 3(3) show ?thesis by simp
  qed
next
  case (4 pf fl k v s)
  show ?case
  proof (cases "map_of (macros s) k")
    case None
    with 4(1) have "s' = s\<lparr>macros := (k, v) # macros s\<rparr>" by simp
    with inv_define [OF 4(2) None] show ?thesis by simp
  next
    case (Some v')
    with 4(1) have "s' = s" by (simp split: if_splits)
    with 4(2) show ?thesis by simp
  qed
next
  case (5 pf fl h s)
  from 5(1) obtain tab where t: "sys_header pf h (macros s) = Inr tab" "s' = s\<lparr>macros := tab\<rparr>"
    by (auto split: sum.splits)
  from 5(3) [OF 5(2) t(1)] t(2) show ?case by simp
next
  case (6 pf fl ts s)
  from 6(1) have "s' = s\<lparr>passed := passed s @ [ts]\<rparr>" by simp
  with inv_source [OF 6(2)] show ?case by simp
next
  case (7 pf fl s)
  from 7(1,2) show ?case by simp
next
  case (8 pf fl d ds s)
  show ?case
  proof (cases "run pf fl d s")
    case (Inl e)
    with 8(3) show ?thesis by simp
  next
    case (Inr s1)
    with 8(3) have r: "run_all pf fl ds s1 = Inr s'" by simp
    from 8(1) [OF Inr 8(4) 8(5)] have "Inv s1" .
    from 8(2) [OF Inr r this 8(5)] show ?thesis .
  qed
qed

text \<open>
  No directive changes the definition of a name that has one, as long as the
  system headers do not; and no directive unmarks a file.
\<close>

lemma run_all_keeps_binding:
  assumes "keeps pf n" "run_all pf f ds s = Inr s'" "map_of (macros s) n = Some m"
  shows "map_of (macros s') n = Some m"
proof (rule run_invariant(2) [where Inv = "\<lambda>s. map_of (macros s) n = Some m",
      OF _ _ _ _ assms(2) assms(3)])
  fix s h tab
  assume "map_of (macros s) n = Some m" "sys_header pf h (macros s) = Inr tab"
  with assms(1) have "map_of tab n = Some m"
    unfolding keeps_def by blast
  then show "map_of (macros (s\<lparr>macros := tab\<rparr>)) n = Some m" by simp
qed auto

lemma run_all_once_mono:
  assumes "run_all pf f ds s = Inr s'" "x \<in> set (once s)"
  shows "x \<in> set (once s')"
  by (rule run_invariant(2) [where Inv = "\<lambda>s. x \<in> set (once s)", OF _ _ _ _ assms]) auto

subsection \<open>The guarded definitions and the header as a whole\<close>

text \<open>
  A guarded definition installs its macro where the name is free and does
  nothing where it is taken. The header's seven are all of this form, so
  processing them never fails and never touches a definition in force.
\<close>

lemma run_guarded_define:
  "run pf f (Ifndef n [Define n m]) s =
     Inr (if is_defined s n then s else s\<lparr>macros := (n, m) # macros s\<rparr>)"
  by (simp add: is_defined_def)

lemma port1632_bindings_eq:
  "port1632_bindings = map (\<lambda>(n, m). Ifndef n [Define n m]) shim_definitions"
  by (simp add: port1632_bindings_def shim_definitions_def)

lemma run_all_guarded:
  "\<exists>s'. run_all pf f (map (\<lambda>(n, m). Ifndef n [Define n m]) defs) s = Inr s'
        \<and> once s' = once s \<and> passed s' = passed s
        \<and> (\<forall>k v. map_of (macros s) k = Some v \<longrightarrow> map_of (macros s') k = Some v)"
proof (induction defs arbitrary: s)
  case Nil
  then show ?case by simp
next
  case (Cons a defs)
  obtain n m where a: "a = (n, m)" by (cases a)
  define s1 where "s1 = (if is_defined s n then s else s\<lparr>macros := (n, m) # macros s\<rparr>)"
  from Cons.IH [of s1] obtain s' where
    s': "run_all pf f (map (\<lambda>(n, m). Ifndef n [Define n m]) defs) s1 = Inr s'"
      "once s' = once s1" "passed s' = passed s1"
      "\<forall>k v. map_of (macros s1) k = Some v \<longrightarrow> map_of (macros s') k = Some v"
    by blast
  have step: "run pf f (Ifndef n [Define n m]) s = Inr s1"
    unfolding s1_def by (rule run_guarded_define)
  have keep: "\<forall>k v. map_of (macros s) k = Some v \<longrightarrow> map_of (macros s1) k = Some v"
    by (auto simp: s1_def is_defined_def)
  have same: "once s1 = once s" "passed s1 = passed s"
    by (simp_all add: s1_def)
  have "run_all pf f (map (\<lambda>(n, m). Ifndef n [Define n m]) (a # defs)) s = Inr s'"
    using step s'(1) by (simp add: a del: run.simps)
  moreover have "\<forall>k v. map_of (macros s) k = Some v \<longrightarrow> map_of (macros s') k = Some v"
    using keep s'(4) by blast
  ultimately show ?case using s'(2,3) same by auto
qed

lemma bindings_never_fail:
  "\<exists>s'. run_all pf f port1632_bindings s = Inr s'
        \<and> once s' = once s \<and> passed s' = passed s
        \<and> (\<forall>k v. map_of (macros s) k = Some v \<longrightarrow> map_of (macros s') k = Some v)"
  unfolding port1632_bindings_eq by (rule run_all_guarded)

text \<open>Where a name of the seven is free, the header's definition of it is installed.\<close>

lemma run_all_guarded_installs:
  assumes "distinct (map fst defs)" "(n, d) \<in> set defs" "map_of (macros s) n = None"
    and "run_all pf f (map (\<lambda>(n, m). Ifndef n [Define n m]) defs) s = Inr s'"
  shows "map_of (macros s') n = Some d"
  using assms
proof (induction defs arbitrary: s)
  case Nil
  then show ?case by simp
next
  case (Cons a defs)
  obtain n1 m1 where a: "a = (n1, m1)" by (cases a)
  define s1 where "s1 = (if is_defined s n1 then s else s\<lparr>macros := (n1, m1) # macros s\<rparr>)"
  have step: "run pf f (Ifndef n1 [Define n1 m1]) s = Inr s1"
    unfolding s1_def by (rule run_guarded_define)
  with Cons.prems(4) have rest:
    "run_all pf f (map (\<lambda>(n, m). Ifndef n [Define n m]) defs) s1 = Inr s'"
    by (simp add: a del: run.simps)
  show ?case
  proof (cases "n = n1")
    case True
    with Cons.prems(1,2) a have "d = m1"
      by (auto simp: image_iff)
    with True Cons.prems(3) have "map_of (macros s1) n = Some d"
      by (simp add: s1_def is_defined_def)
    moreover from run_all_guarded [of pf f defs s1] rest
    have "\<forall>k v. map_of (macros s1) k = Some v \<longrightarrow> map_of (macros s') k = Some v"
      by auto
    ultimately show ?thesis by blast
  next
    case False
    with Cons.prems(2) a have "(n, d) \<in> set defs" by auto
    moreover from False Cons.prems(3) have "map_of (macros s1) n = None"
      by (simp add: s1_def)
    moreover from Cons.prems(1) have "distinct (map fst defs)" by simp
    ultimately show ?thesis using Cons.IH rest by blast
  qed
qed

lemma bindings_install:
  assumes "(n, d) \<in> set shim_definitions" "\<not> is_defined s n"
    and "run_all pf f port1632_bindings s = Inr s'"
  shows "map_of (macros s') n = Some d"
proof -
  have "distinct (map fst shim_definitions)"
    by (simp add: shim_definitions_def)
  from run_all_guarded_installs [OF this assms(1) _ assms(3) [unfolded port1632_bindings_eq]]
    assms(2)
  show ?thesis by (simp add: is_defined_def)
qed

text \<open>
  The header as a whole: after \<^verbatim>\<open>#pragma once\<close> it is one group under
  the inclusion guard, and it fails only where a system header does.
\<close>

lemma run_all_port1632_h:
  "run_all pf f port1632_h s =
     (let s0 = (if honours_once pf then s\<lparr>once := f # once s\<rparr> else s)
      in if is_defined s0 ''PORT1632_STUB_H'' then Inr s0
         else run_all pf f (port1632_prologue @ port1632_bindings @ port1632_epilogue) s0)"
  by (simp add: port1632_h_def Let_def split: sum.splits)

lemma prologue_result:
  assumes "succeeds pf" "\<not> is_defined s ''PORT1632_STUB_H''"
  shows "\<exists>s'. run_all pf f port1632_prologue s = Inr s'"
proof -
  define s1 where "s1 = s\<lparr>macros := (''PORT1632_STUB_H'', ObjectLike []) # macros s\<rparr>"
  from assms(1) obtain t1 where t1: "sys_header pf ''windows.h'' (macros s1) = Inr t1"
    unfolding succeeds_def by blast
  from assms(1) obtain t2 where t2: "sys_header pf ''string.h'' t1 = Inr t2"
    unfolding succeeds_def by blast
  show ?thesis
    using assms(2) t1 t2 by (simp add: port1632_prologue_def is_defined_def s1_def)
qed

lemma epilogue_result: "\<exists>s'. run_all pf f port1632_epilogue s = Inr s'"
  by (simp add: port1632_epilogue_def)

lemma body_succeeds:
  assumes "succeeds pf" "\<not> is_defined s ''PORT1632_STUB_H''"
  shows "\<exists>s'. run_all pf f (port1632_prologue @ port1632_bindings @ port1632_epilogue) s = Inr s'"
proof -
  from prologue_result [OF assms] obtain s1 where s1: "run_all pf f port1632_prologue s = Inr s1"
    by blast
  from bindings_never_fail obtain s2 where s2: "run_all pf f port1632_bindings s1 = Inr s2"
    by blast
  from epilogue_result obtain s3 where s3: "run_all pf f port1632_epilogue s2 = Inr s3"
    by blast
  show ?thesis using s1 s2 s3 by (simp add: run_all_append)
qed

lemma include_port1632_succeeds:
  assumes "succeeds pf"
  shows "\<exists>s'. include_port1632 pf s = Inr s'"
  using body_succeeds [OF assms]
  by (simp add: include_port1632_def include_file_def run_all_port1632_h Let_def)

lemma include_port1632_keeps_binding:
  assumes "keeps pf n" "include_port1632 pf s = Inr s'" "map_of (macros s) n = Some m"
  shows "map_of (macros s') n = Some m"
proof (cases "''port1632.h'' \<in> set (once s)")
  case True
  with assms(2,3) show ?thesis by (simp add: include_port1632_def include_file_def)
next
  case False
  with assms(2) have "run_all pf ''port1632.h'' port1632_h s = Inr s'"
    by (simp add: include_port1632_def include_file_def)
  from run_all_keeps_binding [OF assms(1) this assms(3)] show ?thesis .
qed

text \<open>The example platform meets both conditions, and the example states are what they are called.\<close>

lemma keeps_example: "keeps example_platform n"
  by (auto simp: keeps_def example_platform_def windows_like_def split: if_splits)

lemma succeeds_example: "succeeds example_platform"
  by (simp add: succeeds_def example_platform_def windows_like_def)

lemma after_prologue_result:
  "run_all example_platform ''port1632.h'' port1632_prologue empty_state = Inr after_prologue"
  by (simp add: port1632_prologue_def empty_state_def after_prologue_def is_defined_def
      example_platform_def windows_like_def)

lemma after_bindings_result:
  "run_all example_platform ''port1632.h'' port1632_bindings after_prologue = Inr after_bindings"
  by (simp add: port1632_bindings_def after_prologue_def after_bindings_def is_defined_def)

lemma after_first_result: "include_port1632 example_platform empty_state = Inr after_first"
proof -
  have "run_all example_platform ''port1632.h'' port1632_epilogue after_bindings = Inr after_first"
    by (simp add: port1632_epilogue_def after_bindings_def after_first_def is_defined_def)
  with after_prologue_result after_bindings_result
  have "run_all example_platform ''port1632.h''
          (port1632_prologue @ port1632_bindings @ port1632_epilogue) empty_state = Inr after_first"
    by (simp add: run_all_append)
  then show ?thesis
    by (simp add: include_port1632_def include_file_def run_all_port1632_h
        example_platform_def empty_state_def is_defined_def)
qed

subsection \<open>Macro replacement\<close>

lemma brace_depth_append: "brace_depth (xs @ ys) = brace_depth xs + brace_depth ys"
  by (induction xs) simp_all

lemma expand_append:
  "expand tab hide (xs @ ys) = expand tab hide xs @ expand tab hide ys"
  by (induction tab hide xs rule: expand.induct) (simp_all split: option.splits macro.splits)

text \<open>
  An object-like macro met in a token sequence gives way to the replacement of
  its own replacement list, scanned with the macro's name hidden.
\<close>

lemma expand_alias:
  assumes "map_of tab n = Some (ObjectLike body)" "n \<notin> set hide"
  shows "expand tab hide (pre @ Ident n # post)
           = expand tab hide pre @ expand tab (n # hide) body @ expand tab hide post"
  using assms by (simp add: expand_append)

text \<open>
  Claim C5. For every four argument names \<open>a\<close>, \<open>b\<close>, \<open>c\<close>, \<open>d\<close>, the invocation
  \<open>MMain(a, b, c, d)\<close> is replaced by the tokens
  \<open>int APIENTRY WinMain ( HINSTANCE a , HINSTANCE b , LPSTR c , int d ) {\<close>
  and nothing more: the last token is the opening brace, no closing brace
  occurs, so the replacement leaves one brace open, and with a body and one
  closing brace after it the braces balance exactly when those of the body do.
\<close>

theorem MMain_expansion:
  "(let ts = [Ident ''int'', Ident ''APIENTRY'', Ident ''WinMain'', Punct ''('',
              Ident ''HINSTANCE'', Ident a, Punct '','',
              Ident ''HINSTANCE'', Ident b, Punct '','',
              Ident ''LPSTR'', Ident c, Punct '','',
              Ident ''int'', Ident d, Punct '')'',
              Punct ''{'']
    in invoke define_MMain [[Ident a], [Ident b], [Ident c], [Ident d]] = Some ts
       \<and> last ts = Punct ''{''
       \<and> Punct ''}'' \<notin> set ts
       \<and> brace_depth ts = 1
       \<and> brace_depth (ts @ body @ [Punct ''}'']) = brace_depth body)"
  by (simp add: invoke_def define_MMain_def Let_def brace_depth_append)

text \<open>The entry point of an application, with an empty body.\<close>

theorem MMain_expansion_witness:
  "invoke define_MMain [[Ident ''hInst''], [Ident ''hPrev''], [Ident ''cmd''], [Ident ''show'']]
     = Some [Ident ''int'', Ident ''APIENTRY'', Ident ''WinMain'', Punct ''('',
             Ident ''HINSTANCE'', Ident ''hInst'', Punct '','',
             Ident ''HINSTANCE'', Ident ''hPrev'', Punct '','',
             Ident ''LPSTR'', Ident ''cmd'', Punct '','',
             Ident ''int'', Ident ''show'', Punct '')'',
             Punct ''{'']
   \<and> brace_depth
        ([Ident ''int'', Ident ''APIENTRY'', Ident ''WinMain'', Punct ''('',
          Ident ''HINSTANCE'', Ident ''hInst'', Punct '','',
          Ident ''HINSTANCE'', Ident ''hPrev'', Punct '','',
          Ident ''LPSTR'', Ident ''cmd'', Punct '','',
          Ident ''int'', Ident ''show'', Punct '')'',
          Punct ''{''] @ [] @ [Punct ''}'']) = brace_depth []"
  using MMain_expansion [of "''hInst''" "''hPrev''" "''cmd''" "''show''" "[]"]
  by (simp only: Let_def)

text \<open>
  What the two calling-convention aliases need from the header around them:
  the opening of the header defines no name that its system headers leave
  free (but the guard macro), and its end leaves the macro table alone. An
  alias of a name that is itself bound to a keyword is replaced by that
  keyword.
\<close>

lemma prologue_leaves_free:
  assumes "leaves_free pf n" "n \<noteq> ''PORT1632_STUB_H''" "map_of (macros s) n = None"
    and "run_all pf f port1632_prologue s = Inr s1"
  shows "map_of (macros s1) n = None"
proof -
  define tab0 where "tab0 = (if is_defined s ''PORT1632_STUB_H'' then macros s
      else (''PORT1632_STUB_H'', ObjectLike []) # macros s)"
  have free0: "map_of tab0 n = None"
    using assms(2,3) by (simp add: tab0_def)
  from assms(4) obtain t1 t2 where t: "sys_header pf ''windows.h'' tab0 = Inr t1"
    "sys_header pf ''string.h'' t1 = Inr t2" and s1: "macros s1 = t2"
    by (auto simp: port1632_prologue_def tab0_def is_defined_def
        split: option.splits sum.splits if_splits)
  from assms(1) t(1) free0 have "map_of t1 n = None"
    unfolding leaves_free_def by blast
  with assms(1) t(2) have "map_of t2 n = None"
    unfolding leaves_free_def by blast
  with s1 show ?thesis by simp
qed

lemma epilogue_macros:
  assumes "run_all pf f port1632_epilogue s = Inr s'"
  shows "macros s' = macros s"
  using assms by (auto simp: port1632_epilogue_def split: if_splits)

lemma expand_keyword_alias:
  assumes "map_of tab a = Some (ObjectLike [Ident p])"
    and "map_of tab p = Some (ObjectLike [Ident k])" and "map_of tab k = None"
  shows "expand tab [] (pre @ Ident a # post) = expand tab [] pre @ Ident k # expand tab [] post"
proof -
  have "expand tab [a] [Ident p] = [Ident k]"
    using assms by (cases "p = a") auto
  with expand_alias [OF assms(1), of "[]" pre post] show ?thesis by simp
qed

text \<open>
  Claim C2. Take a translation unit that includes the header for the first
  time, with \<open>EXPENTRY\<close> and \<open>WINAPI16\<close> free and system headers that leave
  them free, on a platform that gives its two convention names \<open>WINAPI\<close> and
  \<open>CALLBACK\<close> one and the same calling-convention keyword \<open>k\<close>. After the
  header, \<open>EXPENTRY\<close> is bound to \<open>WINAPI\<close> and \<open>WINAPI16\<close> to \<open>CALLBACK\<close>,
  each of the two aliases is replaced by that one keyword \<open>k\<close> wherever it
  stands, and so a declaration using one alias is replaced by exactly the
  tokens of the declaration using the other in its place: the two are
  interchangeable.
\<close>

theorem EXPENTRY_WINAPI16_aliases:
  assumes inc: "include_port1632 pf s = Inr s'"
    and fresh: "''port1632.h'' \<notin> set (once s)" "\<not> is_defined s ''PORT1632_STUB_H''"
    and free: "\<not> is_defined s ''EXPENTRY''" "\<not> is_defined s ''WINAPI16''"
    and sys: "leaves_free pf ''EXPENTRY''" "leaves_free pf ''WINAPI16''"
    and same: "map_of (macros s') ''WINAPI'' = Some (ObjectLike [Ident k])"
      "map_of (macros s') ''CALLBACK'' = Some (ObjectLike [Ident k])"
      "map_of (macros s') k = None"
  shows "map_of (macros s') ''EXPENTRY'' = Some (ObjectLike [Ident ''WINAPI''])
       \<and> map_of (macros s') ''WINAPI16'' = Some (ObjectLike [Ident ''CALLBACK''])
       \<and> expand (macros s') [] (pre @ Ident ''EXPENTRY'' # post)
           = expand (macros s') [] pre @ Ident k # expand (macros s') [] post
       \<and> expand (macros s') [] (pre @ Ident ''WINAPI16'' # post)
           = expand (macros s') [] pre @ Ident k # expand (macros s') [] post
       \<and> expand (macros s') [] (pre @ Ident ''EXPENTRY'' # post)
           = expand (macros s') [] (pre @ Ident ''WINAPI16'' # post)"
proof -
  define s0 where "s0 = (if honours_once pf then s\<lparr>once := ''port1632.h'' # once s\<rparr> else s)"
  have m0: "macros s0 = macros s"
    by (simp add: s0_def)
  from inc fresh have
    "run_all pf ''port1632.h'' (port1632_prologue @ port1632_bindings @ port1632_epilogue) s0 = Inr s'"
    by (cases "honours_once pf")
      (simp_all add: include_port1632_def include_file_def run_all_port1632_h s0_def
        is_defined_def Let_def)
  then obtain s1 s2 where r1: "run_all pf ''port1632.h'' port1632_prologue s0 = Inr s1"
    and r2: "run_all pf ''port1632.h'' port1632_bindings s1 = Inr s2"
    and r3: "run_all pf ''port1632.h'' port1632_epilogue s2 = Inr s'"
    by (auto simp: run_all_append split: sum.splits)
  have f1: "\<not> is_defined s1 ''EXPENTRY''" "\<not> is_defined s1 ''WINAPI16''"
    using prologue_leaves_free [OF sys(1) _ _ r1] prologue_leaves_free [OF sys(2) _ _ r1] free m0
    by (simp_all add: is_defined_def)
  have tab: "macros s' = macros s2"
    by (rule epilogue_macros [OF r3])
  have e: "map_of (macros s') ''EXPENTRY'' = Some (ObjectLike [Ident ''WINAPI''])"
    using bindings_install [OF _ f1(1) r2, of define_EXPENTRY]
    by (simp add: tab shim_definitions_def define_EXPENTRY_def)
  have w: "map_of (macros s') ''WINAPI16'' = Some (ObjectLike [Ident ''CALLBACK''])"
    using bindings_install [OF _ f1(2) r2, of define_WINAPI16]
    by (simp add: tab shim_definitions_def define_WINAPI16_def)
  note ee = expand_keyword_alias [OF e same(1) same(3), of pre post]
  note ww = expand_keyword_alias [OF w same(2) same(3), of pre post]
  from e w ee ww show ?thesis by simp
qed

text \<open>
  The empty translation unit includes the whole header on the example
  platform, whose \<open>windows.h\<close> defines both \<open>WINAPI\<close> and \<open>CALLBACK\<close> as
  \<open>__stdcall\<close>: the two declarations of a window procedure both become
  \<open>int __stdcall WndProc\<close>.
\<close>

theorem EXPENTRY_WINAPI16_aliases_witness:
  "include_port1632 example_platform empty_state = Inr after_first
   \<and> ''port1632.h'' \<notin> set (once empty_state)
   \<and> \<not> is_defined empty_state ''PORT1632_STUB_H''
   \<and> \<not> is_defined empty_state ''EXPENTRY'' \<and> \<not> is_defined empty_state ''WINAPI16''
   \<and> leaves_free example_platform ''EXPENTRY'' \<and> leaves_free example_platform ''WINAPI16''
   \<and> map_of (macros after_first) ''WINAPI'' = Some (ObjectLike [Ident ''__stdcall''])
   \<and> map_of (macros after_first) ''CALLBACK'' = Some (ObjectLike [Ident ''__stdcall''])
   \<and> map_of (macros after_first) ''__stdcall'' = None
   \<and> map_of (macros after_first) ''EXPENTRY'' = Some (ObjectLike [Ident ''WINAPI''])
   \<and> map_of (macros after_first) ''WINAPI16'' = Some (ObjectLike [Ident ''CALLBACK''])
   \<and> expand (macros after_first) [] [Ident ''int'', Ident ''EXPENTRY'', Ident ''WndProc'']
       = [Ident ''int'', Ident ''__stdcall'', Ident ''WndProc'']
   \<and> expand (macros after_first) [] [Ident ''int'', Ident ''WINAPI16'', Ident ''WndProc'']
       = [Ident ''int'', Ident ''__stdcall'', Ident ''WndProc'']"
proof -
  have fresh: "''port1632.h'' \<notin> set (once empty_state)"
    "\<not> is_defined empty_state ''PORT1632_STUB_H''"
    and free: "\<not> is_defined empty_state ''EXPENTRY''" "\<not> is_defined empty_state ''WINAPI16''"
    by (simp_all add: empty_state_def is_defined_def)
  have sys: "leaves_free example_platform ''EXPENTRY''" "leaves_free example_platform ''WINAPI16''"
    by (auto simp: leaves_free_def example_platform_def windows_like_def map_of_append
        split: if_splits)
  have same: "map_of (macros after_first) ''WINAPI'' = Some (ObjectLike [Ident ''__stdcall''])"
    "map_of (macros after_first) ''CALLBACK'' = Some (ObjectLike [Ident ''__stdcall''])"
    "map_of (macros after_first) ''__stdcall'' = None"
    by (simp_all add: after_first_def after_bindings_def)
  have rest: "expand (macros after_first) [] [Ident ''int''] = [Ident ''int'']"
    "expand (macros after_first) [] [Ident ''WndProc''] = [Ident ''WndProc'']"
    by (simp_all add: after_first_def after_bindings_def)
  note both = EXPENTRY_WINAPI16_aliases [OF after_first_result fresh free sys same,
      where pre = "[Ident ''int'']" and post = "[Ident ''WndProc'']"]
  note b1 = both [THEN conjunct1]
  note b2 = both [THEN conjunct2, THEN conjunct1]
  note b3 = both [THEN conjunct2, THEN conjunct2, THEN conjunct1]
  note b4 = both [THEN conjunct2, THEN conjunct2, THEN conjunct2, THEN conjunct1]
  from b3 b4 have x: "expand (macros after_first) [] [Ident ''int'', Ident ''EXPENTRY'', Ident ''WndProc'']
       = [Ident ''int'', Ident ''__stdcall'', Ident ''WndProc'']"
    "expand (macros after_first) [] [Ident ''int'', Ident ''WINAPI16'', Ident ''WndProc'']
       = [Ident ''int'', Ident ''__stdcall'', Ident ''WndProc'']"
    by (simp_all only: rest append.simps)
  from after_first_result fresh free sys same b1 b2 x show ?thesis
    by blast
qed

subsection \<open>The guards\<close>

text \<open>
  Claim C4. Each of the seven names the header binds is bound inside a guard
  on that same name. If such a name \<open>n\<close> already has a definition \<open>m\<close> when the
  header is processed, the guarded group changes nothing, so the header's own
  definition \<open>d\<close> is not installed; the seven groups together succeed and
  leave \<open>n\<close> bound to \<open>m\<close>; and so does including the whole header, on a
  platform whose system headers can be read and leave the definition of \<open>n\<close>
  alone. The first definition wins.
\<close>

theorem port1632_first_definition_wins:
  assumes "(n, d) \<in> set shim_definitions"
    and "map_of (macros s) n = Some m"
    and "succeeds pf" and "keeps pf n"
  shows "Ifndef n [Define n d] \<in> set port1632_bindings
       \<and> run pf f (Ifndef n [Define n d]) s = Inr s
       \<and> (\<exists>s'. run_all pf f port1632_bindings s = Inr s' \<and> map_of (macros s') n = Some m)
       \<and> (\<exists>s'. include_port1632 pf s = Inr s' \<and> map_of (macros s') n = Some m)"
proof (intro conjI)
  from assms(1) show "Ifndef n [Define n d] \<in> set port1632_bindings"
    unfolding port1632_bindings_eq by force
next
  from assms(2) show "run pf f (Ifndef n [Define n d]) s = Inr s"
    by (simp add: is_defined_def)
next
  from bindings_never_fail [of pf f s] assms(2)
  show "\<exists>s'. run_all pf f port1632_bindings s = Inr s' \<and> map_of (macros s') n = Some m"
    by blast
next
  from include_port1632_succeeds [OF assms(3)] obtain s' where "include_port1632 pf s = Inr s'"
    by blast
  with include_port1632_keeps_binding [OF assms(4) this assms(2)]
  show "\<exists>s'. include_port1632 pf s = Inr s' \<and> map_of (macros s') n = Some m"
    by blast
qed

text \<open>
  A translation unit with a \<open>max\<close> of its own includes the header on the example
  platform: its \<open>max\<close> stays, and the header's is not installed.
\<close>

theorem port1632_first_definition_wins_witness:
  "(''max'', define_max) \<in> set shim_definitions
   \<and> map_of (macros with_own_max) ''max'' = Some own_max
   \<and> succeeds example_platform \<and> keeps example_platform ''max''
   \<and> own_max \<noteq> define_max
   \<and> run example_platform ''port1632.h'' (Ifndef ''max'' [Define ''max'' define_max]) with_own_max
       = Inr with_own_max
   \<and> (\<exists>s'. include_port1632 example_platform with_own_max = Inr s'
          \<and> map_of (macros s') ''max'' = Some own_max)"
proof -
  have a: "(''max'', define_max) \<in> set shim_definitions"
    by (simp add: shim_definitions_def)
  have b: "map_of (macros with_own_max) ''max'' = Some own_max"
    by (simp add: with_own_max_def)
  have c: "own_max \<noteq> define_max"
    by (simp add: own_max_def define_max_def)
  note wins = port1632_first_definition_wins [OF a b succeeds_example keeps_example,
      where f = "''port1632.h''"]
  from a b c succeeds_example keeps_example wins show ?thesis by blast
qed

text \<open>
  Claim C8. Including the header is idempotent: after an inclusion that went
  through, a further inclusion in the same translation unit goes through as
  well (no redefinition error) and leaves the state as it is, the macro table
  and the text passed on alike. This holds on a platform that honours
  \<^verbatim>\<open>#pragma once\<close>, and on any other by the inclusion guard, as long as its
  system headers leave the guard macro alone.
\<close>

theorem port1632_include_idempotent:
  assumes first: "include_port1632 pf s = Inr s1"
    and guard: "honours_once pf \<or> keeps pf ''PORT1632_STUB_H''"
  shows "include_port1632 pf s1 = Inr s1"
proof (cases "''port1632.h'' \<in> set (once s1)")
  case True
  then show ?thesis by (simp add: include_port1632_def include_file_def)
next
  case not_once: False
  have not_once_s: "''port1632.h'' \<notin> set (once s)"
  proof
    assume marked: "''port1632.h'' \<in> set (once s)"
    with first have "s1 = s" by (simp add: include_port1632_def include_file_def)
    with marked not_once show False by simp
  qed
  with first have r: "run_all pf ''port1632.h'' port1632_h s = Inr s1"
    by (simp add: include_port1632_def include_file_def)
  have no_once: "\<not> honours_once pf"
  proof
    assume h: "honours_once pf"
    have "run pf ''port1632.h'' (Pragma ''once'') s = Inr (s\<lparr>once := ''port1632.h'' # once s\<rparr>)"
      using h by simp
    moreover from r obtain s0 where "run pf ''port1632.h'' (Pragma ''once'') s = Inr s0"
      and r0: "run_all pf ''port1632.h'' (tl port1632_h) s0 = Inr s1"
      by (auto simp: port1632_h_def split: sum.splits)
    ultimately have "''port1632.h'' \<in> set (once s0)" by auto
    from run_all_once_mono [OF r0 this] not_once show False by simp
  qed
  with guard have k: "keeps pf ''PORT1632_STUB_H''" by simp
  have defd: "is_defined s1 ''PORT1632_STUB_H''"
  proof (cases "is_defined s ''PORT1632_STUB_H''")
    case True
    with r no_once have "s1 = s" by (simp add: run_all_port1632_h)
    with True show ?thesis by simp
  next
    case False
    with r no_once have
      "run_all pf ''port1632.h'' (port1632_prologue @ port1632_bindings @ port1632_epilogue) s = Inr s1"
      by (simp add: run_all_port1632_h)
    then have "run_all pf ''port1632.h''
        (tl port1632_prologue @ port1632_bindings @ port1632_epilogue)
        (s\<lparr>macros := (''PORT1632_STUB_H'', ObjectLike []) # macros s\<rparr>) = Inr s1"
      using False by (simp add: port1632_prologue_def is_defined_def)
    from run_all_keeps_binding [OF k this, of "ObjectLike []"]
    show ?thesis by (simp add: is_defined_def)
  qed
  show ?thesis
    using not_once no_once defd
    by (simp add: include_port1632_def include_file_def run_all_port1632_h)
qed

text \<open>
  The empty translation unit on the example platform: the first inclusion
  installs six definitions and passes the text of \<open>MMoveTo\<close> on once; the second
  changes nothing.
\<close>

theorem port1632_include_idempotent_witness:
  "include_port1632 example_platform empty_state = Inr after_first
   \<and> (honours_once example_platform \<or> keeps example_platform ''PORT1632_STUB_H'')
   \<and> include_port1632 example_platform after_first = Inr after_first
   \<and> passed after_first = [MMoveTo_text]"
proof -
  have k: "honours_once example_platform \<or> keeps example_platform ''PORT1632_STUB_H''"
    using keeps_example by simp
  have p: "passed after_first = [MMoveTo_text]"
    by (simp add: after_first_def)
  from after_first_result k p port1632_include_idempotent [OF after_first_result k]
  show ?thesis by blast
qed

subsection \<open>The memory aliases\<close>

text \<open>
  Claim C6. A call \<open>hmemcpy(dest, src, length)\<close> is the call of the memory-copy
  primitive with the same arguments, whatever the primitive is, so it leaves
  the bytes and returns the value the direct call does; in the text of the
  program, \<open>hmemcpy\<close> followed by its arguments is replaced by what \<open>memcpy\<close>
  followed by them is, where \<open>hmemcpy\<close> has the header's definition and
  \<open>memcpy\<close> is no macro. With the primitive as the spec describes it and valid
  buffers that do not overlap, the call returns \<open>dest\<close>, the \<open>length\<close> bytes at
  \<open>dest\<close> are those at \<open>src\<close>, and no other byte changes.
\<close>

theorem hmemcpy_is_memcpy:
  assumes "valid mem dest n" "valid mem src n" "buffer dest n \<inter> buffer src n = {}"
    and "map_of tab ''hmemcpy'' = Some define_hmemcpy" "map_of tab ''memcpy'' = None"
  shows "hmemcpy prim dest src n mem = prim dest src n mem
       \<and> (\<exists>mem'. hmemcpy memcpy dest src n mem = Some (dest, mem')
             \<and> (\<forall>i<n. mem' (dest + i) = mem (src + i))
             \<and> (\<forall>a. a \<notin> buffer dest n \<longrightarrow> mem' a = mem a))
       \<and> expand tab [] (Ident ''hmemcpy'' # args) = expand tab [] (Ident ''memcpy'' # args)"
  using assms by (simp add: hmemcpy_def memcpy_def buffer_def define_hmemcpy_def)

text \<open>Copying the two bytes at address 0 to address 8; the byte at 10 stays.\<close>

theorem hmemcpy_is_memcpy_witness:
  "valid ram 8 2 \<and> valid ram 0 2 \<and> buffer 8 2 \<inter> buffer 0 2 = {}
   \<and> hmemcpy memcpy 8 0 2 ram = memcpy 8 0 2 ram
   \<and> (\<exists>mem'. hmemcpy memcpy 8 0 2 ram = Some (8, mem')
         \<and> mem' 8 = Some 17 \<and> mem' 9 = Some 34 \<and> mem' 10 = Some 51)
   \<and> expand (macros after_bindings) []
        [Ident ''hmemcpy'', Punct ''('', Ident ''d'', Punct '','', Ident ''s'', Punct '','',
         Ident ''n'', Punct '')'']
       = expand (macros after_bindings) []
        [Ident ''memcpy'', Punct ''('', Ident ''d'', Punct '','', Ident ''s'', Punct '','',
         Ident ''n'', Punct '')'']"
proof -
  have v: "valid ram 8 2" "valid ram 0 2" "buffer 8 2 \<inter> buffer 0 2 = {}"
    by (auto simp: valid_def buffer_def ram_def)
  have t: "map_of (macros after_bindings) ''hmemcpy'' = Some define_hmemcpy"
    "map_of (macros after_bindings) ''memcpy'' = None"
    by (simp_all add: after_bindings_def)
  note copy = hmemcpy_is_memcpy [OF v t, where prim = memcpy
      and args = "[Punct ''('', Ident ''d'', Punct '','', Ident ''s'', Punct '','',
         Ident ''n'', Punct '')'']"]
  from copy obtain mem' where m: "hmemcpy memcpy 8 0 2 ram = Some (8, mem')"
    "\<forall>i<2. mem' (8 + i) = ram (0 + i)" "\<forall>a. a \<notin> buffer 8 2 \<longrightarrow> mem' a = ram a"
    by blast
  from m(2) [rule_format, of 0] m(2) [rule_format, of 1]
  have b89: "mem' 8 = Some 17" "mem' 9 = Some 34"
    by (simp_all add: ram_def)
  from m(3) have "mem' 10 = ram 10"
    by (simp add: buffer_def)
  then have b10: "mem' 10 = Some 51"
    by (simp add: ram_def)
  from m(1) b89 b10 have
    "\<exists>mem'. hmemcpy memcpy 8 0 2 ram = Some (8, mem')
         \<and> mem' 8 = Some 17 \<and> mem' 9 = Some 34 \<and> mem' 10 = Some 51"
    by blast
  with v copy show ?thesis by blast
qed



end
